theory Spec2Isabelle
  imports Complex_Main
begin

section \<open>Python strings and exceptions\<close>

text \<open>
  A Python \<open>str\<close> is a sequence of code points. The model covers the strings whose code
  points are below 256: a \<open>char\<close> stands for the code point \<open>of_char c\<close>, so \<open>length\<close>
  counts what Python's \<open>len\<close> counts and slicing \<open>s[:n]\<close> is \<open>take n s\<close>.

  Among these code points \<open>str.isspace\<close> holds for U+0009..U+000D, U+001C..U+0020,
  U+0085 and U+00A0. \<open>str.isdigit\<close> holds for the decimal digits U+0030..U+0039 and also
  for the superscript digits U+00B2, U+00B3 and U+00B9, which \<open>int()\<close> does not accept.
\<close>

definition isspace_char :: "char \<Rightarrow> bool" where
  "isspace_char c = (let n = (of_char c :: nat) in
     (9 \<le> n \<and> n \<le> 13) \<or> (28 \<le> n \<and> n \<le> 32) \<or> n = 133 \<or> n = 160)"

definition decimal_char :: "char \<Rightarrow> bool" where
  "decimal_char c = (let n = (of_char c :: nat) in 48 \<le> n \<and> n \<le> 57)"

definition isdigit_char :: "char \<Rightarrow> bool" where
  "isdigit_char c = (let n = (of_char c :: nat) in
     (48 \<le> n \<and> n \<le> 57) \<or> n = 178 \<or> n = 179 \<or> n = 185)"

text \<open>\<open>s.lstrip()\<close>, \<open>s.rstrip()\<close> and \<open>s.strip()\<close>.\<close>

definition str_lstrip :: "string \<Rightarrow> string" where
  "str_lstrip s = dropWhile isspace_char s"

definition str_rstrip :: "string \<Rightarrow> string" where
  "str_rstrip s = rev (dropWhile isspace_char (rev s))"

definition str_strip :: "string \<Rightarrow> string" where
  "str_strip s = str_rstrip (str_lstrip s)"

text \<open>\<open>s.isdigit()\<close>: non-empty and every character a digit in Python's sense.\<close>

definition str_isdigit :: "string \<Rightarrow> bool" where
  "str_isdigit s = (s \<noteq> [] \<and> list_all isdigit_char s)"

text \<open>A non-empty string of the decimal digits \<open>0\<close>..\<open>9\<close>, and the number it denotes.\<close>

definition is_decimal :: "string \<Rightarrow> bool" where
  "is_decimal s = (s \<noteq> [] \<and> list_all decimal_char s)"

definition decimal_value :: "string \<Rightarrow> nat" where
  "decimal_value s = foldl (\<lambda>acc c. 10 * acc + (of_char c - 48)) 0 s"

text \<open>
  \<open>s.split(c)\<close> for a one-character separator: every occurrence splits, and the result
  always has at least one part (\<open>''''.split('','')\<close> is \<open>['''']\<close>).
\<close>

fun str_split :: "char \<Rightarrow> string \<Rightarrow> string list" where
  "str_split c [] = [[]]"
| "str_split c (x # xs) =
     (let r = str_split c xs in
      if x = c then [] # r else (x # hd r) # tl r)"

text \<open>
  \<open>a, b = p.split(c, 1)\<close> for a string \<open>p\<close> that contains \<open>c\<close>: the text before the
  first occurrence, and everything after it.
\<close>

definition str_split1 :: "char \<Rightarrow> string \<Rightarrow> string \<times> string" where
  "str_split1 c p = (takeWhile (\<lambda>x. x \<noteq> c) p, tl (dropWhile (\<lambda>x. x \<noteq> c) p))"

text \<open>
  The exceptions the worker can meet, each with the text that \<open>str(e)\<close> gives:
  a \<open>KeyError\<close> carries its key, the others their message. \<open>RequestError\<close> stands for
  any exception raised by the HTTP client (connection refused, DNS failure, timeout,
  protocol error, error status of the store).
\<close>

datatype exn =
    KeyError string
  | TypeError string
  | AttributeError string
  | ValueError string
  | OverflowError string
  | RequestError string

text \<open>\<open>repr(s)\<close> of a string without quotes, backslashes and unprintable characters.\<close>

definition repr :: "string \<Rightarrow> string" where
  "repr s = CHR 0x27 # s @ [CHR 0x27]"

fun str_exn :: "exn \<Rightarrow> string" where
  "str_exn (KeyError k) = repr k"
| "str_exn (TypeError m) = m"
| "str_exn (AttributeError m) = m"
| "str_exn (ValueError m) = m"
| "str_exn (OverflowError m) = m"
| "str_exn (RequestError m) = m"

text \<open>The decimal numeral of a natural number, as \<open>str(n)\<close> gives it.\<close>

fun show_nat :: "nat \<Rightarrow> string" where
  "show_nat n =
     (if n < 10 then [char_of (48 + n)]
      else show_nat (n div 10) @ [char_of (48 + n mod 10)])"

declare show_nat.simps [simp del]

text \<open>
  \<open>int(s)\<close> as the worker calls it, on a string that has passed \<open>isdigit\<close>. The
  interpreter first counts the decimal digits at the start of the string, leading zeros
  included, and raises \<open>ValueError\<close> when they are more than 4300 (the default of
  \<open>sys.set_int_max_str_digits\<close>). Otherwise a string of decimal digits has its value, of
  any size, and a string with a superscript digit raises \<open>ValueError\<close>, whose message
  shows the first 200 characters of the argument's \<open>repr\<close>.
\<close>

definition py_int :: "string \<Rightarrow> exn + int" where
  "py_int s =
     (let digits = length (takeWhile decimal_char s) in
      if 4300 < digits then
        Inl (ValueError (''Exceeds the limit (4300 digits) for integer string conversion: ''
          @ ''value has '' @ show_nat digits
          @ '' digits; use sys.set_int_max_str_digits() to increase the limit''))
      else if is_decimal s then Inr (int (decimal_value s))
      else Inl (ValueError (''invalid literal for int() with base 10: '' @ take 200 (repr s))))"

section \<open>The status spec evaluator\<close>

text \<open>
  \<^verbatim>\<open>
  def in_expected(status: int, spec: str) -> bool:
      parts = [p.strip() for p in spec.split(",")]
      for p in parts:
          if "-" in p:
              a, b = p.split("-", 1)
              if a.isdigit() and b.isdigit() and int(a) <= status <= int(b):
                  return True
          elif p.isdigit() and int(p) == status:
              return True
      return False
  \<close>
  The loop is \<open>in_expected_loop\<close>. The chained comparison evaluates \<open>int(a)\<close> first and
  \<open>int(b)\<close> only when \<open>int(a) <= status\<close>, and an exception of \<open>int\<close> leaves the
  function at once.
\<close>

fun in_expected_loop :: "int \<Rightarrow> string list \<Rightarrow> exn + bool" where
  "in_expected_loop status [] = Inr False"
| "in_expected_loop status (p # ps) =
     (if CHR ''-'' \<in> set p then
        (case str_split1 (CHR ''-'') p of (a, b) \<Rightarrow>
           if str_isdigit a \<and> str_isdigit b then
             (case py_int a of
                Inl e \<Rightarrow> Inl e
              | Inr lo \<Rightarrow>
                  if lo \<le> status then
                    (case py_int b of
                       Inl e \<Rightarrow> Inl e
                     | Inr hi \<Rightarrow> if status \<le> hi then Inr True else in_expected_loop status ps)
                  else in_expected_loop status ps)
           else in_expected_loop status ps)
      else if str_isdigit p then
        (case py_int p of
           Inl e \<Rightarrow> Inl e
         | Inr v \<Rightarrow> if v = status then Inr True else in_expected_loop status ps)
      else in_expected_loop status ps)"

definition in_expected :: "int \<Rightarrow> string \<Rightarrow> exn + bool" where
  "in_expected status spec = in_expected_loop status (map str_strip (str_split (CHR '','') spec))"

section \<open>Monitors, checks and the HTTP client\<close>

text \<open>
  The worker reads monitors from \<open>r.json()\<close> as \<open>Dict[str, Any]\<close>: a monitor is a JSON
  object, a dictionary from field names to JSON values, looked up with \<open>map_of\<close>.
  \<open>JFloat\<close> holds the finite numbers with a fraction.
\<close>

datatype json =
    JNull
  | JBool bool
  | JInt int
  | JFloat rat
  | JStr string
  | JArr "json list"
  | JObj "(string \<times> json) list"

type_synonym dict = "(string \<times> json) list"

text \<open>The name of a value's Python type, as exception messages show it, and its truth value.\<close>

fun type_name :: "json \<Rightarrow> string" where
  "type_name JNull = ''NoneType''"
| "type_name (JBool b) = ''bool''"
| "type_name (JInt i) = ''int''"
| "type_name (JFloat r) = ''float''"
| "type_name (JStr s) = ''str''"
| "type_name (JArr xs) = ''list''"
| "type_name (JObj kvs) = ''dict''"

fun truthy :: "json \<Rightarrow> bool" where
  "truthy JNull = False"
| "truthy (JBool b) = b"
| "truthy (JInt i) = (i \<noteq> 0)"
| "truthy (JFloat r) = (r \<noteq> 0)"
| "truthy (JStr s) = (s \<noteq> [])"
| "truthy (JArr xs) = (xs \<noteq> [])"
| "truthy (JObj kvs) = (kvs \<noteq> [])"

text \<open>\<open>mon[k]\<close>, which raises \<open>KeyError\<close> on a missing key, and \<open>mon.get(k, default)\<close>.\<close>

definition dict_item :: "dict \<Rightarrow> string \<Rightarrow> exn + json" where
  "dict_item mon k = (case map_of mon k of None \<Rightarrow> Inl (KeyError k) | Some v \<Rightarrow> Inr v)"

definition dict_get :: "dict \<Rightarrow> string \<Rightarrow> json \<Rightarrow> json" where
  "dict_get mon k dflt = (case map_of mon k of None \<Rightarrow> dflt | Some v \<Rightarrow> v)"

definition no_attribute :: "json \<Rightarrow> string \<Rightarrow> exn" where
  "no_attribute v attr =
     AttributeError (repr (type_name v) @ '' object has no attribute '' @ repr attr)"

text \<open>
  The body that the worker posts to \<open>/checks\<close>. \<open>None\<close> is an absent (null) field.
\<close>

record check =
  monitor_id :: json
  status_code :: "int option"
  latency_ms :: rat
  ok :: bool
  error_reason :: "string option"

text \<open>
  The HTTP client and the store behind it, as far as the worker observes them:
  \<^item> \<open>get_monitors\<close>: the outcome of lines 48 to 50 (\<open>client.get\<close>, \<open>raise_for_status\<close>,
    \<open>r.json()\<close>): the decoded body, or the exception one of the three calls raised;
  \<^item> \<open>request method url timeout\<close>: the outcome of \<open>client.request\<close>: the response's
    status code, or the exception raised. \<open>method\<close> is the monitor's text, which the
    worker sends in upper case; the timeout is in seconds;
  \<^item> \<open>measured url\<close>: \<open>round(latency_ms, 2)\<close> for the probe of that URL;
  \<^item> \<open>post c\<close>: \<open>None\<close> when \<open>client.post\<close> returns (whatever the store's status
    code), or the exception it raised;
  \<^item> \<open>finished mon\<close>: the instant at which the probe of a monitor ends, by returning or
    by raising, counted in steps of the event loop from the start of the probes of the
    pass. How long a request and a delivery take is the network's choice.
  Within one pass of the loop the client is a function: two requests with the same
  method, URL and timeout have the same outcome.
\<close>

record client =
  get_monitors :: "exn + json"
  request :: "string \<Rightarrow> json \<Rightarrow> rat \<Rightarrow> exn + int"
  measured :: "json \<Rightarrow> rat"
  post :: "check \<Rightarrow> exn option"
  finished :: "dict \<Rightarrow> nat"

section \<open>The probe\<close>

text \<open>
  \<open>timeout = mon.get("timeout_ms", 5000) / 1000.0\<close>: a number is divided (a \<open>bool\<close> is
  an \<open>int\<close> in Python; an \<open>int\<close> too large for a float raises \<open>OverflowError\<close>), and
  any other value raises \<open>TypeError\<close>.
\<close>

definition timeout_of :: "json \<Rightarrow> exn + rat" where
  "timeout_of v =
     (case v of
        JInt i \<Rightarrow>
          if \<bar>i\<bar> < 2 ^ 1024 - 2 ^ 970 then Inr (of_int i / 1000)
          else Inl (OverflowError ''int too large to convert to float'')
      | JBool b \<Rightarrow> Inr ((if b then 1 else 0) / 1000)
      | JFloat r \<Rightarrow> Inr (r / 1000)
      | _ \<Rightarrow> Inl (TypeError (''unsupported operand type(s) for /: '' @ repr (type_name v)
                 @ '' and '' @ repr ''float'')))"

text \<open>\<open>method = mon.get("method", "GET").upper()\<close>: only a string has \<open>upper\<close>.\<close>

definition method_of :: "json \<Rightarrow> exn + string" where
  "method_of v = (case v of JStr m \<Rightarrow> Inr m | _ \<Rightarrow> Inl (no_attribute v ''upper''))"

text \<open>
  \<open>in_expected(status_code, mon.get("expected_statuses", "200-399"))\<close>: a value that is
  not a string has no \<open>split\<close>.
\<close>

definition expected_of :: "dict \<Rightarrow> json" where
  "expected_of mon = dict_get mon ''expected_statuses'' (JStr ''200-399'')"

definition evaluate :: "int \<Rightarrow> json \<Rightarrow> exn + bool" where
  "evaluate status v =
     (case v of JStr spec \<Rightarrow> in_expected status spec | _ \<Rightarrow> Inl (no_attribute v ''split''))"

text \<open>
  Lines 25 to 34, the \<open>try\<close> block and its handler, given the outcome of the request:
  the values of \<open>status_code\<close>, \<open>ok\<close> and \<open>err\<close> after it. \<open>except Exception\<close> catches
  what the request raises and also what \<open>in_expected\<close> raises; in the second case
  \<open>status_code\<close> is already assigned.
\<close>

definition classify :: "dict \<Rightarrow> exn + int \<Rightarrow> int option \<times> bool \<times> string option" where
  "classify mon outcome =
     (case outcome of
        Inl e \<Rightarrow> (None, False, Some (take 300 (str_exn e)))
      | Inr sc \<Rightarrow>
          (case evaluate sc (expected_of mon) of
             Inl e \<Rightarrow> (Some sc, False, Some (take 300 (str_exn e)))
           | Inr b \<Rightarrow> (Some sc, b, None)))"

text \<open>
  What one call of \<open>check_once\<close> does: it raises before any check is handed to the store
  (\<open>Aborted\<close>), or it posts a check and returns (\<open>Delivered\<close>), or the post raises and the
  exception leaves \<open>check_once\<close> (\<open>Undelivered\<close>).
\<close>

datatype probe_result =
    Aborted exn
  | Delivered check
  | Undelivered check exn

fun attempted :: "probe_result \<Rightarrow> check option" where
  "attempted (Aborted e) = None"
| "attempted (Delivered c) = Some c"
| "attempted (Undelivered c e) = Some c"

fun raised :: "probe_result \<Rightarrow> exn option" where
  "raised (Aborted e) = Some e"
| "raised (Delivered c) = None"
| "raised (Undelivered c e) = Some e"

definition check_once :: "client \<Rightarrow> dict \<Rightarrow> probe_result" where
  "check_once cl mon =
     (case dict_item mon ''url'' of
        Inl e \<Rightarrow> Aborted e
      | Inr url \<Rightarrow>
     (case timeout_of (dict_get mon ''timeout_ms'' (JInt 5000)) of
        Inl e \<Rightarrow> Aborted e
      | Inr timeout \<Rightarrow>
     (case method_of (dict_get mon ''method'' (JStr ''GET'')) of
        Inl e \<Rightarrow> Aborted e
      | Inr method \<Rightarrow>
     (case classify mon (request cl method url timeout) of (sc, is_ok, err) \<Rightarrow>
     (case dict_item mon ''id'' of
        Inl e \<Rightarrow> Aborted e
      | Inr mid \<Rightarrow>
          (let c = \<lparr>monitor_id = mid, status_code = sc, latency_ms = measured cl url,
                    ok = is_ok, error_reason = err\<rparr>
           in case post cl c of None \<Rightarrow> Delivered c | Some e \<Rightarrow> Undelivered c e))))))"

text \<open>
  The monitor records of the store's interface: \<open>url\<close> and \<open>id\<close> are present;
  \<open>timeout_ms\<close>, when present, is a \<open>bool\<close>, a float or an \<open>int\<close> that converts to a
  float (its magnitude is below \<open>2 ^ 1024 - 2 ^ 970\<close>); \<open>method\<close>, when present, is a
  string. These are the records for which lines 22 to 24 do not raise.
\<close>

definition monitor_record :: "dict \<Rightarrow> bool" where
  "monitor_record mon =
     (map_of mon ''url'' \<noteq> None \<and> map_of mon ''id'' \<noteq> None
      \<and> (case map_of mon ''timeout_ms'' of
            None \<Rightarrow> True
          | Some (JInt i) \<Rightarrow> \<bar>i\<bar> < 2 ^ 1024 - 2 ^ 970
          | Some (JBool b) \<Rightarrow> True
          | Some (JFloat r) \<Rightarrow> True
          | Some _ \<Rightarrow> False)
      \<and> (case map_of mon ''method'' of None \<Rightarrow> True | Some (JStr m) \<Rightarrow> True | Some _ \<Rightarrow> False))"

section \<open>The scheduling loop\<close>

text \<open>
  \<open>for m in monitors\<close>: a list yields its elements, a dictionary its keys, a string its
  characters; any other JSON value is not iterable.
\<close>

definition iterate :: "json \<Rightarrow> exn + json list" where
  "iterate v =
     (case v of
        JArr xs \<Rightarrow> Inr xs
      | JObj kvs \<Rightarrow> Inr (map (\<lambda>kv. JStr (fst kv)) kvs)
      | JStr s \<Rightarrow> Inr (map (\<lambda>c. JStr [c]) s)
      | _ \<Rightarrow> Inl (TypeError (repr (type_name v) @ '' object is not iterable'')))"

text \<open>
  \<open>[check_once(client, m) for m in monitors if m.get("is_enabled", True)]\<close>: the
  monitors for which a probe is created. An element without \<open>get\<close> raises, and then no
  probe of the list is ever started.
\<close>

definition is_enabled :: "dict \<Rightarrow> bool" where
  "is_enabled mon = truthy (dict_get mon ''is_enabled'' (JBool True))"

fun select_enabled :: "json list \<Rightarrow> exn + dict list" where
  "select_enabled [] = Inr []"
| "select_enabled (JObj mon # ms) =
     (case select_enabled ms of
        Inl e \<Rightarrow> Inl e
      | Inr tasks \<Rightarrow> Inr (if is_enabled mon then mon # tasks else tasks))"
| "select_enabled (v # ms) = Inl (no_attribute v ''get'')"

definition fetch_tasks :: "client \<Rightarrow> exn + dict list" where
  "fetch_tasks cl =
     (case get_monitors cl of
        Inl e \<Rightarrow> Inl e
      | Inr body \<Rightarrow>
          (case iterate body of Inl e \<Rightarrow> Inl e | Inr ms \<Rightarrow> select_enabled ms))"

text \<open>
  \<open>await asyncio.gather(*tasks)\<close>, called without \<open>return_exceptions\<close>: every task is
  started and none is cancelled. When no task raises, the await ends when the last task
  has ended. When a task raises, the await ends at the instant the first such task ends
  and raises that task's exception into the loop; the other tasks keep running, and
  their later exceptions are dropped.

  \<open>failures\<close> lists the probes of a pass that raise, each with the instant it ends and
  its exception; \<open>first_raised\<close> picks the earliest (of two that end in the same step,
  the one that was started first). \<open>gather\<close> gives the instant at which the await ends
  and the exception it raises, if any.
\<close>

fun first_raised :: "(nat \<times> exn) list \<Rightarrow> (nat \<times> exn) option" where
  "first_raised [] = None"
| "first_raised ((t, e) # xs) =
     (case first_raised xs of
        None \<Rightarrow> Some (t, e)
      | Some (t', e') \<Rightarrow> if t \<le> t' then Some (t, e) else Some (t', e'))"

definition failures :: "client \<Rightarrow> dict list \<Rightarrow> (nat \<times> exn) list" where
  "failures cl tasks =
     List.map_filter (\<lambda>mon. map_option (Pair (finished cl mon)) (raised (check_once cl mon))) tasks"

definition gather :: "client \<Rightarrow> dict list \<Rightarrow> nat \<times> exn option" where
  "gather cl tasks =
     (case first_raised (failures cl tasks) of
        Some (t, e) \<Rightarrow> (t, Some e)
      | None \<Rightarrow> (fold max (map (finished cl) tasks) 0, None))"

text \<open>
  One pass of the \<open>while True\<close> body. \<open>launched\<close> are the monitors whose probe was
  started, \<open>results\<close> what each of these probes does, \<open>loop_errors\<close> the exception that
  arrives at the loop's \<open>except Exception\<close> and is printed (at most one in a pass: that
  of the fetch, or the one that \<open>gather\<close> raises), and \<open>slept\<close> the seconds of the
  final \<open>asyncio.sleep\<close>. With no task the loop skips \<open>gather\<close>, which then would
  raise nothing.
\<close>

record cycle_report =
  launched :: "dict list"
  results :: "probe_result list"
  loop_errors :: "exn list"
  slept :: nat

definition cycle :: "client \<Rightarrow> cycle_report" where
  "cycle cl =
     (case fetch_tasks cl of
        Inl e \<Rightarrow> \<lparr>launched = [], results = [], loop_errors = [e], slept = 60\<rparr>
      | Inr tasks \<Rightarrow>
          \<lparr>launched = tasks, results = map (check_once cl) tasks,
           loop_errors = (case snd (gather cl tasks) of None \<Rightarrow> [] | Some e \<Rightarrow> [e]),
           slept = 60\<rparr>)"

text \<open>
  The instant at which the loop reaches \<open>asyncio.sleep\<close>, counted like \<open>finished\<close>: at
  once when the fetch failed, and when the await of \<open>gather\<close> ends otherwise.
\<close>

definition sleep_starts :: "client \<Rightarrow> nat" where
  "sleep_starts cl = (case fetch_tasks cl of Inl e \<Rightarrow> 0 | Inr tasks \<Rightarrow> fst (gather cl tasks))"

text \<open>
  \<open>runner\<close> never returns. \<open>runner n world\<close> is its first \<open>n\<close> passes, where \<open>world k\<close>
  is the client's behaviour during pass \<open>k\<close>.
\<close>

fun runner :: "nat \<Rightarrow> (nat \<Rightarrow> client) \<Rightarrow> cycle_report list" where
  "runner 0 world = []"
| "runner (Suc n) world = cycle (world 0) # runner n (\<lambda>k. world (Suc k))"

text \<open>The checks that the probes of a pass handed to the store.\<close>

definition reports :: "cycle_report \<Rightarrow> check list" where
  "reports r = List.map_filter attempted (results r)"

section \<open>Auxiliary notions for the statements\<close>

text \<open>
  The outcome of the request that \<open>check_once\<close> makes for a monitor (lines 22 to 30), or
  \<open>None\<close> when \<open>check_once\<close> raises before it makes one.
\<close>

definition request_outcome :: "client \<Rightarrow> dict \<Rightarrow> (exn + int) option" where
  "request_outcome cl mon =
     (case dict_item mon ''url'' of
        Inl e \<Rightarrow> None
      | Inr url \<Rightarrow>
     (case timeout_of (dict_get mon ''timeout_ms'' (JInt 5000)) of
        Inl e \<Rightarrow> None
      | Inr timeout \<Rightarrow>
     (case method_of (dict_get mon ''method'' (JStr ''GET'')) of
        Inl e \<Rightarrow> None
      | Inr method \<Rightarrow> Some (request cl method url timeout))))"

text \<open>
  The specification's reading of a token, for comparison with the code: a valid token is
  a decimal number, which matches the status equal to it, or two decimal numbers around
  the first hyphen, which match the statuses between them.
\<close>

definition spec_token_matches :: "int \<Rightarrow> string \<Rightarrow> bool" where
  "spec_token_matches status p =
     (if CHR ''-'' \<in> set p then
        (case str_split1 (CHR ''-'') p of (a, b) \<Rightarrow>
           is_decimal a \<and> is_decimal b
           \<and> int (decimal_value a) \<le> status \<and> status \<le> int (decimal_value b))
      else is_decimal p \<and> int (decimal_value p) = status)"

definition spec_matches :: "int \<Rightarrow> string \<Rightarrow> bool" where
  "spec_matches status spec =
     list_ex (spec_token_matches status) (map str_strip (str_split (CHR '','') spec))"

text \<open>A string without the superscript digits, on which \<open>isdigit\<close> and \<open>int\<close> agree.\<close>

definition plain :: "string \<Rightarrow> bool" where
  "plain s = list_all (\<lambda>c. isdigit_char c = decimal_char c) s"

text \<open>
  The barrier at the end of the fan-out: every probe launched in the pass has ended
  when the loop reaches its sleep.
\<close>

definition barrier :: "client \<Rightarrow> bool" where
  "barrier cl = list_all (\<lambda>mon. finished cl mon \<le> sleep_starts cl) (launched (cycle cl))"

section \<open>Example inputs\<close>

text \<open>
  A client whose calls all have a fixed outcome and whose probes all end in the same
  step, and some monitors: one with only the required fields, one that is switched off,
  and two whose expected statuses hold the superscript two (U+00B2).
\<close>

definition fixed_client :: "exn + json \<Rightarrow> exn + int \<Rightarrow> exn option \<Rightarrow> client" where
  "fixed_client body outcome delivery =
     \<lparr>get_monitors = body, request = (\<lambda>method url timeout. outcome),
      measured = (\<lambda>url. 0), post = (\<lambda>c. delivery), finished = (\<lambda>mon. 0)\<rparr>"

definition mon_bare :: dict where
  "mon_bare = [(''id'', JInt 1), (''url'', JStr ''http://a.test/'')]"

definition mon_on :: dict where
  "mon_on = [(''id'', JInt 2), (''url'', JStr ''http://b.test/''), (''method'', JStr ''get''),
     (''timeout_ms'', JInt 2000), (''expected_statuses'', JStr ''200,201,204''),
     (''is_enabled'', JBool True)]"

definition mon_off :: dict where
  "mon_off = [(''id'', JInt 3), (''url'', JStr ''http://c.test/''),
     (''is_enabled'', JBool False)]"

definition mon_squared :: dict where
  "mon_squared = [(''id'', JInt 4), (''url'', JStr ''http://d.test/''),
     (''expected_statuses'', JStr [CHR 0xB2])]"

definition mon_squared_range :: dict where
  "mon_squared_range = [(''id'', JInt 5), (''url'', JStr ''http://e.test/''),
     (''expected_statuses'', JStr (''100-'' @ [CHR 0xB2]))]"

text \<open>
  A client that returns the monitors 1 and 2, answers every request with 200, delivers
  as \<open>deliver\<close> says, and whose probes end one after the other: that of monitor 1 at
  instant 1, that of monitor 2 at instant 2. \<open>store_refuses_first\<close> is a delivery that
  fails for the check of monitor 1 only.
\<close>

definition staggered_client :: "(check \<Rightarrow> exn option) \<Rightarrow> client" where
  "staggered_client deliver =
     \<lparr>get_monitors = Inr (JArr [JObj mon_bare, JObj mon_on]),
      request = (\<lambda>method url timeout. Inr 200),
      measured = (\<lambda>url. 0), post = deliver,
      finished = (\<lambda>mon. case map_of mon ''id'' of Some (JInt i) \<Rightarrow> nat i | _ \<Rightarrow> 0)\<rparr>"

definition store_refuses_first :: "check \<Rightarrow> exn option" where
  "store_refuses_first c =
     (if monitor_id c = JInt 1 then Some (RequestError ''store down'') else None)"

section \<open>Unfolding rules for evaluation\<close>

lemmas string_defs = str_strip_def str_lstrip_def str_rstrip_def isspace_char_def
  str_isdigit_def isdigit_char_def is_decimal_def decimal_char_def decimal_value_def
  str_split1_def py_int_def repr_def Let_def

lemmas probe_defs = check_once_def request_outcome_def classify_def evaluate_def
  expected_of_def dict_item_def dict_get_def timeout_of_def method_of_def fixed_client_def
  monitor_record_def in_expected_def

lemmas loop_defs = cycle_def fetch_tasks_def iterate_def is_enabled_def reports_def
  gather_def failures_def sleep_starts_def barrier_def List.map_filter_simps

lemmas example_defs = mon_bare_def mon_on_def mon_off_def mon_squared_def mon_squared_range_def

section \<open>Properties of the string operations\<close>

lemma str_split_no_sep: "c \<notin> set s \<Longrightarrow> str_split c s = [s]"
  by (induction s) (auto simp: Let_def)

lemma hyphen_not_space: "\<not> isspace_char (CHR ''-'')"
  by (simp add: isspace_char_def)

lemma str_lstrip_hyphen: "str_lstrip (A @ CHR ''-'' # B) = str_lstrip A @ CHR ''-'' # B"
  by (simp add: str_lstrip_def dropWhile_append hyphen_not_space)

lemma str_rstrip_hyphen: "str_rstrip (A @ CHR ''-'' # B) = A @ CHR ''-'' # str_rstrip B"
  by (simp add: str_rstrip_def dropWhile_append hyphen_not_space)

lemma str_strip_hyphen:
  "str_strip (A @ CHR ''-'' # B) = str_lstrip A @ CHR ''-'' # str_rstrip B"
  by (simp add: str_strip_def str_lstrip_hyphen str_rstrip_hyphen)

lemma decimal_not_space: "decimal_char c \<Longrightarrow> \<not> isspace_char c"
  by (auto simp: decimal_char_def isspace_char_def Let_def)

lemma decimal_isdigit_char: "decimal_char c \<Longrightarrow> isdigit_char c"
  by (auto simp: decimal_char_def isdigit_char_def Let_def)

lemma is_decimal_lstrip: "is_decimal s \<Longrightarrow> str_lstrip s = s"
  by (cases s) (auto simp: is_decimal_def str_lstrip_def decimal_not_space)

lemma is_decimal_rstrip: "is_decimal s \<Longrightarrow> str_rstrip s = s"
proof -
  assume d: "is_decimal s"
  then have "rev s \<noteq> []" and "\<not> isspace_char (hd (rev s))"
    by (auto simp: is_decimal_def list_all_iff hd_rev decimal_not_space)
  then have "dropWhile isspace_char (rev s) = rev s"
    by (cases "rev s") auto
  then show ?thesis by (simp add: str_rstrip_def)
qed

lemma is_decimal_isdigit: "is_decimal s \<Longrightarrow> str_isdigit s"
  by (auto simp: is_decimal_def str_isdigit_def list_all_iff decimal_isdigit_char)

lemma is_decimal_no_hyphen: "is_decimal s \<Longrightarrow> CHR ''-'' \<notin> set s"
  by (auto simp: is_decimal_def list_all_iff decimal_char_def)

lemma str_split1_at: "c \<notin> set a \<Longrightarrow> str_split1 c (a @ c # b) = (a, b)"
  by (simp add: str_split1_def takeWhile_append dropWhile_append)

lemma str_split1_unique:
  assumes "c \<notin> set (snd (str_split1 c (x @ c # y)))"
  shows "str_split1 c (x @ c # y) = (x, y)"
proof (cases "c \<in> set x")
  case False
  then show ?thesis by (rule str_split1_at)
next
  case True
  then have "dropWhile (\<lambda>z. z \<noteq> c) (x @ c # y) = dropWhile (\<lambda>z. z \<noteq> c) x @ c # y"
    by (auto simp: dropWhile_append)
  moreover have "dropWhile (\<lambda>z. z \<noteq> c) x \<noteq> []"
    using True by (auto simp: dropWhile_eq_Nil_conv)
  ultimately have "c \<in> set (snd (str_split1 c (x @ c # y)))"
    by (simp add: str_split1_def)
  with assms show ?thesis by simp
qed

lemma takeWhile_decimal: "is_decimal s \<Longrightarrow> takeWhile decimal_char s = s"
  by (simp add: is_decimal_def list_all_iff)

lemma py_int_decimal:
  "is_decimal s \<Longrightarrow> length s \<le> 4300 \<Longrightarrow> py_int s = Inr (int (decimal_value s))"
  by (simp add: py_int_def takeWhile_decimal)

lemma py_int_long:
  "is_decimal s \<Longrightarrow> 4300 < length s \<Longrightarrow>
   py_int s = Inl (ValueError (''Exceeds the limit (4300 digits) for integer string conversion: ''
          @ ''value has '' @ show_nat (length s)
          @ '' digits; use sys.set_int_max_str_digits() to increase the limit''))"
  by (simp add: py_int_def takeWhile_decimal)

lemma py_int_Inr: "py_int s = Inr v \<Longrightarrow> is_decimal s"
  by (simp add: py_int_def Let_def split: if_splits)

lemma py_int_Inr_value: "py_int s = Inr v \<Longrightarrow> v = int (decimal_value s)"
  by (simp add: py_int_def Let_def split: if_splits)

lemma py_int_short:
  "length s \<le> 4300 \<Longrightarrow>
   py_int s = (if is_decimal s then Inr (int (decimal_value s))
      else Inl (ValueError (''invalid literal for int() with base 10: '' @ take 200 (repr s))))"
proof -
  assume "length s \<le> 4300"
  moreover have "length (takeWhile decimal_char s) \<le> length s"
    by (rule length_takeWhile_le)
  ultimately have "\<not> 4300 < length (takeWhile decimal_char s)" by simp
  then show ?thesis by (simp add: py_int_def Let_def)
qed

lemma in_expected_single:
  "CHR '','' \<notin> set spec \<Longrightarrow> in_expected status spec = in_expected_loop status [str_strip spec]"
  by (simp add: in_expected_def str_split_no_sep)

lemma range_token_decimal:
  assumes "is_decimal A" "is_decimal B" "length A \<le> 4300" "length B \<le> 4300"
  shows "in_expected_loop status ((A @ CHR ''-'' # B) # ps) =
     (if int (decimal_value A) \<le> status \<and> status \<le> int (decimal_value B) then Inr True
      else in_expected_loop status ps)"
  using assms
  by (simp add: str_split1_at is_decimal_no_hyphen is_decimal_isdigit py_int_decimal)

lemma range_token_True:
  assumes "in_expected_loop status [x @ CHR ''-'' # y] = Inr True"
  shows "is_decimal x \<and> is_decimal y"
proof -
  obtain a b where ab: "str_split1 (CHR ''-'') (x @ CHR ''-'' # y) = (a, b)"
    by (cases "str_split1 (CHR ''-'') (x @ CHR ''-'' # y)")
  from assms ab have "is_decimal a \<and> is_decimal b"
    by (auto split: if_splits sum.splits dest: py_int_Inr)
  then have da: "is_decimal a" and db: "is_decimal b" by simp_all
  from db have "CHR ''-'' \<notin> set b" by (rule is_decimal_no_hyphen)
  with ab have "str_split1 (CHR ''-'') (x @ CHR ''-'' # y) = (x, y)"
    using str_split1_unique [of "CHR ''-''" x y] by simp
  with ab da db show ?thesis by simp
qed

section \<open>The evaluator on a single range\<close>

text \<open>
  For decimal bounds of at most 4300 digits the code computes the range test, and a
  reversed range matches nothing.
\<close>

lemma in_expected_range_decimal:
  assumes "is_decimal A" "is_decimal B" "length A \<le> 4300" "length B \<le> 4300"
  shows "in_expected s (A @ ''-'' @ B) =
     Inr (int (decimal_value A) \<le> s \<and> s \<le> int (decimal_value B))"
proof -
  from assms(1,2) have "CHR '','' \<notin> set (A @ ''-'' @ B)"
    by (auto simp: is_decimal_def list_all_iff decimal_char_def)
  then have "in_expected s (A @ ''-'' @ B) = in_expected_loop s [str_strip (A @ ''-'' @ B)]"
    by (rule in_expected_single)
  also have "str_strip (A @ ''-'' @ B) = A @ CHR ''-'' # B"
    using assms(1,2) by (simp add: str_strip_hyphen is_decimal_lstrip is_decimal_rstrip)
  finally show ?thesis
    using assms by (simp add: range_token_decimal del: in_expected_loop.simps(2))
qed

lemma in_expected_range_reversed:
  assumes "is_decimal A" "is_decimal B" "length A \<le> 4300" "length B \<le> 4300"
    and "decimal_value B < decimal_value A"
  shows "in_expected s (A @ ''-'' @ B) = Inr False"
  using in_expected_range_decimal [OF assms(1-4), of s] assms(5) by simp

text \<open>
  A bound of more than 4300 decimal digits makes \<open>int\<close> raise: the lower bound always,
  the upper bound when the status is not below the lower bound.
\<close>

lemma in_expected_range_long:
  assumes "is_decimal A" "is_decimal B" "4300 < length A"
  shows "in_expected s (A @ ''-'' @ B) =
     Inl (ValueError (''Exceeds the limit (4300 digits) for integer string conversion: ''
          @ ''value has '' @ show_nat (length A)
          @ '' digits; use sys.set_int_max_str_digits() to increase the limit''))"
proof -
  from assms(1,2) have "CHR '','' \<notin> set (A @ ''-'' @ B)"
    by (auto simp: is_decimal_def list_all_iff decimal_char_def)
  then have "in_expected s (A @ ''-'' @ B) = in_expected_loop s [str_strip (A @ ''-'' @ B)]"
    by (rule in_expected_single)
  also have "str_strip (A @ ''-'' @ B) = A @ CHR ''-'' # B"
    using assms(1,2) by (simp add: str_strip_hyphen is_decimal_lstrip is_decimal_rstrip)
  finally show ?thesis
    using assms
    by (simp add: str_split1_at is_decimal_no_hyphen is_decimal_isdigit py_int_long)
qed

text \<open>
  A token with a hyphen of which a side fails \<open>isdigit\<close> is skipped, and a spec of one
  such token gives false.
\<close>

lemma isdigit_no_hyphen: "str_isdigit s \<Longrightarrow> CHR ''-'' \<notin> set s"
  by (auto simp: str_isdigit_def list_all_iff isdigit_char_def)

lemma range_token_skipped:
  assumes "\<not> str_isdigit x \<or> \<not> str_isdigit y"
  shows "in_expected_loop status ((x @ CHR ''-'' # y) # ps) = in_expected_loop status ps"
proof -
  obtain a b where ab: "str_split1 (CHR ''-'') (x @ CHR ''-'' # y) = (a, b)"
    by (cases "str_split1 (CHR ''-'') (x @ CHR ''-'' # y)")
  have "\<not> (str_isdigit a \<and> str_isdigit b)"
  proof
    assume d: "str_isdigit a \<and> str_isdigit b"
    then have "CHR ''-'' \<notin> set b" by (simp add: isdigit_no_hyphen)
    with ab have "str_split1 (CHR ''-'') (x @ CHR ''-'' # y) = (x, y)"
      using str_split1_unique [of "CHR ''-''" x y] by simp
    with ab d assms show False by simp
  qed
  with ab show ?thesis by auto
qed

lemma in_expected_range_skipped:
  assumes "CHR '','' \<notin> set A" "CHR '','' \<notin> set B"
    and "\<not> str_isdigit (str_lstrip A) \<or> \<not> str_isdigit (str_rstrip B)"
  shows "in_expected s (A @ ''-'' @ B) = Inr False"
proof -
  from assms(1,2) have "CHR '','' \<notin> set (A @ ''-'' @ B)" by simp
  then have "in_expected s (A @ ''-'' @ B) = in_expected_loop s [str_strip (A @ ''-'' @ B)]"
    by (rule in_expected_single)
  also have "\<dots> = in_expected_loop s [str_lstrip A @ CHR ''-'' # str_rstrip B]"
    by (simp add: str_strip_hyphen)
  also have "\<dots> = in_expected_loop s []"
    using assms(3) by (rule range_token_skipped)
  finally show ?thesis by simp
qed

text \<open>Whatever the bounds are, the code returns true only for two decimal numbers.\<close>

lemma in_expected_range_true:
  assumes "CHR '','' \<notin> set A" "CHR '','' \<notin> set B"
    and "in_expected s (A @ ''-'' @ B) = Inr True"
  shows "is_decimal (str_lstrip A) \<and> is_decimal (str_rstrip B)"
proof -
  from assms(1,2) have "CHR '','' \<notin> set (A @ ''-'' @ B)" by simp
  then have "in_expected s (A @ ''-'' @ B) = in_expected_loop s [str_strip (A @ ''-'' @ B)]"
    by (rule in_expected_single)
  with assms(3) have "in_expected_loop s [str_lstrip A @ CHR ''-'' # str_rstrip B] = Inr True"
    by (simp add: str_strip_hyphen)
  then show ?thesis by (rule range_token_True)
qed

text \<open>
  Claim C1. For a spec \<open>A-B\<close> the result should be \<open>A \<le> s \<le> B\<close> for decimal bounds, and
  a token with a bound that is not a number should contribute no match: it is skipped,
  and the spec of that one token gives false. At status 200 and the spec of U+00B2, a
  hyphen and \<open>300\<close> the lower bound is not a number, \<open>isdigit\<close> accepts it, and the
  code raises \<open>ValueError\<close> instead of returning false.
\<close>

theorem in_expected_range_superscript_raises:
  "in_expected 200 ([CHR 0xB2] @ ''-300'') =
     Inl (ValueError (''invalid literal for int() with base 10: '' @ repr [CHR 0xB2]))"
  by (simp add: in_expected_def string_defs)

text \<open>
  The same spec form with a lower bound of 4301 nines, which is a decimal number: the
  code raises where the range test would give false.
\<close>

lemma in_expected_long_bound_raises:
  "in_expected 200 (replicate 4301 (CHR ''9'') @ ''-9'') =
     Inl (ValueError (''Exceeds the limit (4300 digits) for integer string conversion: ''
          @ ''value has 4301 digits; use sys.set_int_max_str_digits() to increase the limit''))"
proof -
  have d: "is_decimal (replicate 4301 (CHR ''9''))"
    by (simp add: is_decimal_def list_all_iff decimal_char_def)
  have n: "is_decimal ''9''"
    by (simp add: is_decimal_def decimal_char_def)
  have s: "show_nat 4301 = ''4301''"
    by code_simp
  from in_expected_range_long [OF d n, of 200] s show ?thesis by simp
qed

section \<open>The evaluator on any spec\<close>

text \<open>
  The examples of the specification: a range, a list, a status outside the range, and a
  malformed token beside a valid one.
\<close>

lemma in_expected_examples:
  "in_expected 204 ''200-399'' = Inr True"
  "in_expected 201 ''200,201,204'' = Inr True"
  "in_expected 404 ''200-299'' = Inr False"
  "in_expected 200 ''200-299,abc'' = Inr True"
  "in_expected 200 [] = Inr False"
  by (simp_all add: in_expected_def string_defs)

lemma plain_isdigit: "plain s \<Longrightarrow> str_isdigit s = is_decimal s"
  by (simp add: plain_def str_isdigit_def is_decimal_def list_all_iff)

lemma plain_subset: "set t \<subseteq> set s \<Longrightarrow> plain s \<Longrightarrow> plain t"
  by (auto simp: plain_def list_all_iff)

lemma set_tl_subset: "set (tl xs) \<subseteq> set xs"
  by (cases xs) auto

lemma set_str_split1_fst: "set (fst (str_split1 c p)) \<subseteq> set p"
  by (auto simp: str_split1_def dest: set_takeWhileD)

lemma set_str_split1_snd: "set (snd (str_split1 c p)) \<subseteq> set p"
  using set_tl_subset [of "dropWhile (\<lambda>x. x \<noteq> c) p"]
  by (auto simp: str_split1_def dest: set_dropWhileD)

lemma set_str_strip: "set (str_strip s) \<subseteq> set s"
  by (auto simp: str_strip_def str_lstrip_def str_rstrip_def dest!: set_dropWhileD)

lemma str_split_nonempty: "str_split c s \<noteq> []"
  by (induction s) (auto simp: Let_def)

lemma set_str_split: "t \<in> set (str_split c s) \<Longrightarrow> set t \<subseteq> set s"
proof (induction s arbitrary: t)
  case Nil
  then show ?case by simp
next
  case (Cons x xs)
  obtain h r where hr: "str_split c xs = h # r"
    using str_split_nonempty [of c xs] by (cases "str_split c xs") auto
  with Cons.IH [of h] have h: "set h \<subseteq> set xs" by simp
  from hr Cons.IH have r: "\<And>u. u \<in> set r \<Longrightarrow> set u \<subseteq> set xs" by simp
  from Cons.prems hr have "t = [] \<or> t = h \<or> t = x # h \<or> t \<in> set r"
    by (auto simp: Let_def split: if_splits)
  with h r show ?case by auto
qed

lemma length_str_split1_fst: "length (fst (str_split1 c p)) \<le> length p"
  by (simp add: str_split1_def length_takeWhile_le)

lemma length_str_split1_snd: "length (snd (str_split1 c p)) \<le> length p"
  using length_dropWhile_le [of "\<lambda>x. x \<noteq> c" p] by (simp add: str_split1_def)

lemma length_str_strip: "length (str_strip s) \<le> length s"
  using length_dropWhile_le [of isspace_char "rev (dropWhile isspace_char s)"]
    length_dropWhile_le [of isspace_char s]
  by (simp add: str_strip_def str_lstrip_def str_rstrip_def)

lemma length_str_split: "t \<in> set (str_split c s) \<Longrightarrow> length t \<le> length s"
proof (induction s arbitrary: t)
  case Nil
  then show ?case by simp
next
  case (Cons x xs)
  obtain h r where hr: "str_split c xs = h # r"
    using str_split_nonempty [of c xs] by (cases "str_split c xs") auto
  with Cons.IH [of h] have h: "length h \<le> length xs" by simp
  from hr Cons.IH have r: "\<And>u. u \<in> set r \<Longrightarrow> length u \<le> length xs" by simp
  from Cons.prems hr have "t = [] \<or> t = h \<or> t = x # h \<or> t \<in> set r"
    by (auto simp: Let_def split: if_splits)
  with h r show ?case by (auto simp: le_SucI)
qed

lemma short_tokens:
  assumes "length spec \<le> n"
  shows "list_all (\<lambda>p. length p \<le> n) (map str_strip (str_split (CHR '','') spec))"
proof -
  have "length (str_strip t) \<le> n" if "t \<in> set (str_split (CHR '','') spec)" for t
  proof -
    from that have "length t \<le> length spec" by (rule length_str_split)
    with length_str_strip [of t] assms show ?thesis by simp
  qed
  then show ?thesis by (simp add: list_all_iff)
qed

lemma plain_tokens:
  assumes "plain spec"
  shows "list_all plain (map str_strip (str_split (CHR '','') spec))"
proof -
  have "plain (str_strip t)" if "t \<in> set (str_split (CHR '','') spec)" for t
  proof -
    from that have "set t \<subseteq> set spec" by (rule set_str_split)
    with set_str_strip [of t] have "set (str_strip t) \<subseteq> set spec" by blast
    then show ?thesis using assms by (rule plain_subset)
  qed
  then show ?thesis by (simp add: list_all_iff)
qed

text \<open>
  On a spec of at most 4300 characters without superscript digits the code computes the
  specification's reading: the result is true exactly when some trimmed token is valid
  and matches, a malformed token is skipped, and nothing is raised.
\<close>

lemma in_expected_loop_plain:
  "list_all plain ps \<Longrightarrow> list_all (\<lambda>p. length p \<le> 4300) ps \<Longrightarrow>
   in_expected_loop status ps = Inr (list_ex (spec_token_matches status) ps)"
proof (induction ps)
  case Nil
  then show ?case by simp
next
  case (Cons p ps)
  then have p: "plain p" and len: "length p \<le> 4300"
    and IH: "in_expected_loop status ps = Inr (list_ex (spec_token_matches status) ps)"
    by simp_all
  show ?case
  proof (cases "CHR ''-'' \<in> set p")
    case True
    obtain a b where ab: "str_split1 (CHR ''-'') p = (a, b)"
      by (cases "str_split1 (CHR ''-'') p")
    have "plain a" "plain b"
      using set_str_split1_fst [of "CHR ''-''" p] set_str_split1_snd [of "CHR ''-''" p] ab p
      by (auto intro: plain_subset)
    then have "str_isdigit a = is_decimal a" "str_isdigit b = is_decimal b"
      by (simp_all add: plain_isdigit)
    moreover have "length a \<le> 4300" "length b \<le> 4300"
      using length_str_split1_fst [of "CHR ''-''" p] length_str_split1_snd [of "CHR ''-''" p]
        ab len by simp_all
    moreover have "spec_token_matches status p =
        (is_decimal a \<and> is_decimal b
         \<and> int (decimal_value a) \<le> status \<and> status \<le> int (decimal_value b))"
      using True ab by (simp add: spec_token_matches_def)
    ultimately show ?thesis
      using True ab IH by (auto simp: py_int_short)
  next
    case False
    from p have "str_isdigit p = is_decimal p" by (rule plain_isdigit)
    moreover have "spec_token_matches status p =
        (is_decimal p \<and> int (decimal_value p) = status)"
      using False by (simp add: spec_token_matches_def)
    ultimately show ?thesis
      using False IH len by (auto simp: py_int_short)
  qed
qed

lemma in_expected_plain:
  "plain spec \<Longrightarrow> length spec \<le> 4300 \<Longrightarrow>
   in_expected status spec = Inr (spec_matches status spec)"
  by (simp add: in_expected_def spec_matches_def in_expected_loop_plain plain_tokens
      short_tokens)

text \<open>
  Claim C2. \<open>in_expected status spec\<close> should be true exactly when the status satisfies
  a valid token, malformed tokens being skipped without an error. At status 200 and the
  spec of the two tokens U+00B2 and \<open>200\<close> the code raises \<open>ValueError\<close>:
  \<open>isdigit\<close> accepts the superscript two and \<open>int\<close> rejects it, although the second
  token is valid and matches.
\<close>

theorem in_expected_superscript_raises:
  "in_expected 200 ([CHR 0xB2] @ '',200'') =
     Inl (ValueError (''invalid literal for int() with base 10: '' @ repr [CHR 0xB2]))
   \<and> spec_matches 200 ([CHR 0xB2] @ '',200'')"
  by (simp add: in_expected_def spec_matches_def spec_token_matches_def string_defs)

section \<open>The probe\<close>

lemma attempted_check_once:
  assumes "attempted (check_once cl mon) = Some c"
  shows "\<exists>out. request_outcome cl mon = Some out
      \<and> status_code c = fst (classify mon out)
      \<and> ok c = fst (snd (classify mon out))
      \<and> error_reason c = snd (snd (classify mon out))
      \<and> map_of mon ''id'' = Some (monitor_id c)"
  using assms
  by (auto simp: check_once_def request_outcome_def dict_item_def Let_def
      split: sum.splits option.splits prod.splits)

lemma monitor_record_check_once:
  assumes "monitor_record mon"
  shows "\<exists>c. attempted (check_once cl mon) = Some c \<and> raised (check_once cl mon) = post cl c"
  using assms
  by (auto simp: monitor_record_def check_once_def dict_item_def dict_get_def
      timeout_of_def method_of_def Let_def split: option.splits json.splits prod.splits)

lemma check_once_response:
  assumes "request_outcome cl mon = Some (Inr sc)"
    and "evaluate sc (expected_of mon) = Inr b"
    and "attempted (check_once cl mon) = Some c"
  shows "status_code c = Some sc \<and> ok c = b \<and> error_reason c = None"
  using attempted_check_once [OF assms(3)] assms(1,2)
  by (auto simp: classify_def)

lemma expected_of_default:
  "map_of mon ''expected_statuses'' = None \<Longrightarrow> expected_of mon = JStr ''200-399''"
  by (simp add: expected_of_def dict_get_def)

lemma check_ok_iff:
  assumes "attempted (check_once cl mon) = Some c"
  shows "ok c = (\<exists>sc. status_code c = Some sc \<and> evaluate sc (expected_of mon) = Inr True)"
proof -
  from attempted_check_once [OF assms] obtain out where
    c: "status_code c = fst (classify mon out)" "ok c = fst (snd (classify mon out))"
    by blast
  show ?thesis
  proof (cases out)
    case (Inl e)
    with c show ?thesis by (simp add: classify_def)
  next
    case (Inr sc)
    with c show ?thesis
      by (cases "evaluate sc (expected_of mon)") (auto simp: classify_def)
  qed
qed

lemma check_ok_no_reason:
  assumes "attempted (check_once cl mon) = Some c" and "ok c"
  shows "error_reason c = None"
proof -
  from attempted_check_once [OF assms(1)] obtain out where
    c: "ok c = fst (snd (classify mon out))" "error_reason c = snd (snd (classify mon out))"
    by blast
  show ?thesis
  proof (cases out)
    case (Inl e)
    with c assms(2) show ?thesis by (simp add: classify_def)
  next
    case (Inr sc)
    with c assms(2) show ?thesis
      by (cases "evaluate sc (expected_of mon)") (auto simp: classify_def)
  qed
qed

text \<open>
  Claim C3. A probe that receives a response should yield a check with the response's
  status, \<open>ok\<close> equal to the evaluator's result and no \<open>error_reason\<close>
  (\<open>check_once_response\<close> shows it whenever the evaluator returns). For the monitor whose
  expected statuses are U+00B2 and a response 200 the evaluator raises inside the \<open>try\<close>
  block, and the check carries the status together with an \<open>error_reason\<close>.
\<close>

theorem check_once_squared:
  "request_outcome (fixed_client (Inr JNull) (Inr 200) None) mon_squared = Some (Inr 200)
   \<and> check_once (fixed_client (Inr JNull) (Inr 200) None) mon_squared =
     Delivered \<lparr>monitor_id = JInt 4, status_code = Some 200, latency_ms = 0, ok = False,
       error_reason = Some (''invalid literal for int() with base 10: '' @ repr [CHR 0xB2])\<rparr>"
  by (simp add: probe_defs example_defs string_defs)

text \<open>
  Claim C6. In every check, \<open>ok\<close> should hold only with a status that matches
  (\<open>check_ok_iff\<close>, \<open>check_ok_no_reason\<close>), and \<open>error_reason\<close> should never stand beside
  a received status. For the monitor whose expected statuses are the range from 100 to
  U+00B2 and a response 404, \<open>int\<close> raises on the upper bound and the check holds both
  the status 404 and an \<open>error_reason\<close>.
\<close>

theorem check_once_squared_range:
  "request_outcome (fixed_client (Inr JNull) (Inr 404) None) mon_squared_range = Some (Inr 404)
   \<and> check_once (fixed_client (Inr JNull) (Inr 404) None) mon_squared_range =
     Delivered \<lparr>monitor_id = JInt 5, status_code = Some 404, latency_ms = 0, ok = False,
       error_reason = Some (''invalid literal for int() with base 10: '' @ repr [CHR 0xB2])\<rparr>"
  by (simp add: probe_defs example_defs string_defs)

text \<open>
  Claim C4, amended. When the request of a probe raises, the check that the probe hands
  to the store has no status, \<open>ok\<close> false, and as \<open>error_reason\<close> the first 300
  characters of the exception's text: at most 300 characters, and empty exactly when
  that text is empty.
\<close>

theorem check_once_transport_failure:
  assumes "request_outcome cl mon = Some (Inl e)"
    and "attempted (check_once cl mon) = Some c"
  shows "status_code c = None \<and> ok c = False
     \<and> error_reason c = Some (take 300 (str_exn e))
     \<and> length (take 300 (str_exn e)) \<le> 300
     \<and> (take 300 (str_exn e) = [] \<longleftrightarrow> str_exn e = [])"
  using attempted_check_once [OF assms(2)] assms(1)
  by (auto simp: classify_def)

theorem check_once_transport_failure_witness:
  "request_outcome (fixed_client (Inr JNull) (Inl (RequestError ''refused'')) None) mon_on
     = Some (Inl (RequestError ''refused''))
   \<and> attempted (check_once (fixed_client (Inr JNull) (Inl (RequestError ''refused'')) None) mon_on)
     = Some \<lparr>monitor_id = JInt 2, status_code = None, latency_ms = 0, ok = False,
         error_reason = Some ''refused''\<rparr>
   \<and> error_reason \<lparr>monitor_id = JInt 2, status_code = None, latency_ms = 0, ok = False,
         error_reason = Some ''refused''\<rparr> = Some (take 300 ''refused'')"
proof -
  let ?cl = "fixed_client (Inr JNull) (Inl (RequestError ''refused'')) None"
  let ?c = "\<lparr>monitor_id = JInt 2, status_code = None, latency_ms = 0, ok = False,
         error_reason = Some ''refused''\<rparr>"
  have r: "request_outcome ?cl mon_on = Some (Inl (RequestError ''refused''))"
    by (simp add: probe_defs example_defs)
  have a: "attempted (check_once ?cl mon_on) = Some ?c"
    by (simp add: probe_defs example_defs)
  from check_once_transport_failure [OF r a] r a show ?thesis by simp
qed

text \<open>
  Claim C4 as stated fails: an exception whose text is empty (as a timeout of the HTTP
  client can have) gives a check whose \<open>error_reason\<close> is the empty string.
\<close>

theorem check_once_empty_reason:
  "request_outcome (fixed_client (Inr JNull) (Inl (RequestError [])) None) mon_bare
     = Some (Inl (RequestError []))
   \<and> check_once (fixed_client (Inr JNull) (Inl (RequestError [])) None) mon_bare =
     Delivered \<lparr>monitor_id = JInt 1, status_code = None, latency_ms = 0, ok = False,
       error_reason = Some []\<rparr>"
  by (simp add: probe_defs example_defs)

text \<open>
  Claim C5, amended. For a monitor record (\<open>monitor_record\<close>: \<open>url\<close> and \<open>id\<close> present,
  \<open>timeout_ms\<close> when present a number that converts to a float, \<open>method\<close> when present
  a string), \<open>check_once\<close> always hands a check to the store, whatever the request and
  the evaluator do, and it raises exactly when that \<open>post\<close> raises, with the exception
  of the \<open>post\<close>.
\<close>

theorem check_once_raises_only_post:
  "monitor_record mon \<Longrightarrow>
   \<exists>c. attempted (check_once cl mon) = Some c \<and> raised (check_once cl mon) = post cl c"
  by (rule monitor_record_check_once)

theorem check_once_raises_only_post_witness:
  "monitor_record mon_on
   \<and> (\<exists>c. attempted (check_once (fixed_client (Inr JNull) (Inl (RequestError ''refused'')) None) mon_on)
          = Some c
        \<and> raised (check_once (fixed_client (Inr JNull) (Inl (RequestError ''refused'')) None) mon_on)
          = None)"
proof -
  have m: "monitor_record mon_on"
    by (simp add: monitor_record_def mon_on_def)
  from check_once_raises_only_post [OF m, of "fixed_client (Inr JNull) (Inl (RequestError ''refused'')) None"]
  show ?thesis using m by (simp add: fixed_client_def)
qed

text \<open>
  Claim C5 as stated fails: when the store refuses the delivery, the exception leaves
  \<open>check_once\<close>.
\<close>

theorem check_once_post_raises:
  "monitor_record mon_bare
   \<and> raised (check_once (fixed_client (Inr JNull) (Inr 200) (Some (RequestError ''store down'')))
        mon_bare) = Some (RequestError ''store down'')"
  by (simp add: probe_defs example_defs string_defs)

section \<open>The scheduling loop\<close>

lemma select_enabled_objects: "select_enabled (map JObj ms) = Inr (filter is_enabled ms)"
  by (induction ms) simp_all

lemma select_enabled_sound:
  "select_enabled xs = Inr tasks \<Longrightarrow> m \<in> set tasks \<Longrightarrow> is_enabled m"
  by (induction xs arbitrary: tasks rule: select_enabled.induct)
     (auto split: sum.splits if_splits)

lemma launched_cases:
  "(\<exists>e. fetch_tasks cl = Inl e \<and> launched (cycle cl) = [] \<and> results (cycle cl) = [])
   \<or> (\<exists>tasks. fetch_tasks cl = Inr tasks \<and> launched (cycle cl) = tasks
        \<and> results (cycle cl) = map (check_once cl) tasks)"
  by (cases "fetch_tasks cl") (simp_all add: cycle_def)

lemma launched_enabled:
  assumes "m \<in> set (launched (cycle cl))"
  shows "is_enabled m"
proof -
  from launched_cases [of cl] assms obtain tasks where
    t: "fetch_tasks cl = Inr tasks" "m \<in> set tasks"
    by auto
  then obtain xs where "select_enabled xs = Inr tasks"
    by (auto simp: fetch_tasks_def split: sum.splits)
  then show ?thesis using t(2) by (rule select_enabled_sound)
qed

lemma cycle_objects:
  assumes "get_monitors cl = Inr (JArr (map JObj ms))"
  shows "launched (cycle cl) = filter is_enabled ms"
    and "results (cycle cl) = map (check_once cl) (filter is_enabled ms)"
  using assms
  by (simp_all add: cycle_def fetch_tasks_def iterate_def select_enabled_objects)

lemma length_map_filter_total:
  "(\<And>x. x \<in> set xs \<Longrightarrow> f x \<noteq> None) \<Longrightarrow> length (List.map_filter f xs) = length xs"
  by (induction xs) (auto simp: List.map_filter_simps split: option.splits)

text \<open>
  Claim C7. When the store returns \<open>N\<close> monitor records that all have
  \<open>is_enabled\<close> true, one pass launches a probe for each of them, in their order, and
  these probes hand exactly \<open>N\<close> checks to the store; and in any pass a monitor whose
  \<open>is_enabled\<close> is false is not probed.
\<close>

theorem cycle_all_enabled:
  "(get_monitors cl = Inr (JArr (map JObj ms))
      \<and> (\<forall>m\<in>set ms. map_of m ''is_enabled'' = Some (JBool True) \<and> monitor_record m) \<longrightarrow>
    launched (cycle cl) = ms
      \<and> results (cycle cl) = map (check_once cl) ms
      \<and> length (reports (cycle cl)) = length ms)
   \<and> (map_of m ''is_enabled'' = Some (JBool False) \<longrightarrow> m \<notin> set (launched (cycle cl)))"
proof (intro conjI impI)
  assume h: "get_monitors cl = Inr (JArr (map JObj ms))
      \<and> (\<forall>m\<in>set ms. map_of m ''is_enabled'' = Some (JBool True) \<and> monitor_record m)"
  then have "\<forall>m\<in>set ms. is_enabled m"
    by (simp add: is_enabled_def dict_get_def)
  then have f: "filter is_enabled ms = ms" by simp
  from h f show l: "launched (cycle cl) = ms" by (simp add: cycle_objects)
  from h f show r: "results (cycle cl) = map (check_once cl) ms" by (simp add: cycle_objects)
  have "attempted x \<noteq> None" if "x \<in> set (map (check_once cl) ms)" for x
  proof -
    from that obtain m where "m \<in> set ms" "x = check_once cl m" by auto
    with h monitor_record_check_once [of m cl] show ?thesis by auto
  qed
  then have "length (List.map_filter attempted (map (check_once cl) ms))
      = length (map (check_once cl) ms)"
    by (rule length_map_filter_total)
  with r show "length (reports (cycle cl)) = length ms" by (simp add: reports_def)
next
  assume off: "map_of m ''is_enabled'' = Some (JBool False)"
  show "m \<notin> set (launched (cycle cl))"
  proof
    assume "m \<in> set (launched (cycle cl))"
    then have "is_enabled m" by (rule launched_enabled)
    with off show False by (simp add: is_enabled_def dict_get_def)
  qed
qed

theorem cycle_all_enabled_witness:
  "launched (cycle (fixed_client (Inr (JArr (map JObj [mon_on, mon_on]))) (Inr 200) None))
     = [mon_on, mon_on]
   \<and> length (reports (cycle (fixed_client (Inr (JArr (map JObj [mon_on, mon_on]))) (Inr 200) None)))
     = 2
   \<and> mon_off \<notin> set (launched (cycle
        (fixed_client (Inr (JArr (map JObj [mon_on, mon_off]))) (Inr 200) None)))"
  using cycle_all_enabled [where cl = "fixed_client (Inr (JArr (map JObj [mon_on, mon_on]))) (Inr 200) None"
      and ms = "[mon_on, mon_on]" and m = mon_off]
    cycle_all_enabled [where cl = "fixed_client (Inr (JArr (map JObj [mon_on, mon_off]))) (Inr 200) None"
      and ms = "[mon_on, mon_off]" and m = mon_off]
  by (simp add: fixed_client_def monitor_record_def mon_on_def mon_off_def)

text \<open>
  Claim C8. When fetching the monitors fails (the client raises, the store answers with
  an error status, or the body is not a list of objects), the pass launches no probe,
  its one exception goes to the loop's handler, it sleeps 60 seconds once, and the loop
  goes on with the next pass; \<open>n\<close> passes of the loop always give \<open>n\<close> reports.
\<close>

theorem cycle_fetch_failure:
  "(get_monitors (world 0) = Inl e \<longrightarrow> fetch_tasks (world 0) = Inl e)
   \<and> (fetch_tasks (world 0) = Inl e \<longrightarrow>
        runner (Suc n) world =
          \<lparr>launched = [], results = [], loop_errors = [e], slept = 60\<rparr>
          # runner n (\<lambda>k. world (Suc k)))
   \<and> length (runner n world) = n"
proof (intro conjI impI)
  show "length (runner n world) = n"
    by (induction n arbitrary: world) simp_all
qed (simp_all add: fetch_tasks_def cycle_def)

theorem cycle_fetch_failure_witness:
  "runner 2 (\<lambda>k. if k = 0 then fixed_client (Inl (RequestError ''store down'')) (Inr 200) None
                  else fixed_client (Inr (JArr [JObj mon_bare])) (Inr 200) None)
   = [\<lparr>launched = [], results = [], loop_errors = [RequestError ''store down''], slept = 60\<rparr>,
      \<lparr>launched = [mon_bare],
       results = [Delivered \<lparr>monitor_id = JInt 1, status_code = Some 200, latency_ms = 0,
                    ok = True, error_reason = None\<rparr>],
       loop_errors = [], slept = 60\<rparr>]"
proof -
  let ?w = "\<lambda>k::nat. if k = 0 then fixed_client (Inl (RequestError ''store down'')) (Inr 200) None
                  else fixed_client (Inr (JArr [JObj mon_bare])) (Inr 200) None"
  have g: "get_monitors (?w 0) = Inl (RequestError ''store down'')"
    by (simp add: fixed_client_def)
  from cycle_fetch_failure [of ?w "RequestError ''store down''" 1] g
  have "runner (Suc 1) ?w =
      \<lparr>launched = [], results = [], loop_errors = [RequestError ''store down''], slept = 60\<rparr>
      # runner 1 (\<lambda>k. ?w (Suc k))"
    by blast
  moreover have "runner 1 (\<lambda>k. ?w (Suc k)) =
     [\<lparr>launched = [mon_bare],
       results = [Delivered \<lparr>monitor_id = JInt 1, status_code = Some 200, latency_ms = 0,
                    ok = True, error_reason = None\<rparr>],
       loop_errors = [], slept = 60\<rparr>]"
    by (simp add: loop_defs probe_defs string_defs mon_bare_def)
  ultimately show ?thesis by (simp add: numeral_2_eq_2)
qed

text \<open>
  Claim C10. A fetched monitor record without the field \<open>is_enabled\<close> counts as
  enabled, and the pass probes it.
\<close>

theorem cycle_missing_is_enabled:
  assumes "get_monitors cl = Inr (JArr (map JObj ms))"
    and "m \<in> set ms"
    and "map_of m ''is_enabled'' = None"
  shows "is_enabled m \<and> m \<in> set (launched (cycle cl))
     \<and> check_once cl m \<in> set (results (cycle cl))"
proof -
  from assms(3) have e: "is_enabled m" by (simp add: is_enabled_def dict_get_def)
  with assms(2) have "m \<in> set (filter is_enabled ms)" by simp
  with e assms(1) show ?thesis by (simp add: cycle_objects)
qed

theorem cycle_missing_is_enabled_witness:
  "map_of mon_bare ''is_enabled'' = None
   \<and> mon_bare \<in> set (launched (cycle
        (fixed_client (Inr (JArr (map JObj [mon_off, mon_bare]))) (Inr 200) None)))"
proof -
  let ?cl = "fixed_client (Inr (JArr (map JObj [mon_off, mon_bare]))) (Inr 200) None"
  have g: "get_monitors ?cl = Inr (JArr (map JObj [mon_off, mon_bare]))"
    by (simp add: fixed_client_def)
  have i: "mon_bare \<in> set [mon_off, mon_bare]" by simp
  have n: "map_of mon_bare ''is_enabled'' = None" by (simp add: mon_bare_def)
  from cycle_missing_is_enabled [OF g i n] n show ?thesis by simp
qed

section \<open>The join at the end of a pass\<close>

lemma first_raised_None: "first_raised xs = None \<longleftrightarrow> xs = []"
  by (induction xs rule: first_raised.induct) (auto split: option.splits)

lemma first_raised_member: "first_raised xs = Some te \<Longrightarrow> te \<in> set xs"
  by (induction xs arbitrary: te rule: first_raised.induct)
     (auto split: option.splits if_splits)

lemma first_raised_least:
  "first_raised xs = Some (t, e) \<Longrightarrow> (t', e') \<in> set xs \<Longrightarrow> t \<le> t'"
proof (induction xs arbitrary: t e rule: first_raised.induct)
  case 1
  then show ?case by simp
next
  case (2 u d xs)
  show ?case
  proof (cases "first_raised xs")
    case None
    then have "xs = []" by (simp add: first_raised_None)
    with 2 show ?thesis by auto
  next
    case (Some a)
    obtain v c where a: "a = (v, c)" by (cases a)
    from 2 Some a show ?thesis by (auto split: if_splits)
  qed
qed

lemma failures_member:
  "(t, e) \<in> set (failures cl tasks) \<longleftrightarrow>
   (\<exists>mon\<in>set tasks. t = finished cl mon \<and> raised (check_once cl mon) = Some e)"
  by (induction tasks) (auto simp: failures_def List.map_filter_simps split: option.splits)

lemma failures_empty:
  "failures cl tasks = [] \<longleftrightarrow> (\<forall>mon\<in>set tasks. raised (check_once cl mon) = None)"
  by (induction tasks) (auto simp: failures_def List.map_filter_simps split: option.splits)

lemma fold_max_upper: "x \<in> set xs \<Longrightarrow> x \<le> fold max xs (a::nat)"
proof (induction xs arbitrary: a)
  case Nil
  then show ?case by simp
next
  case (Cons y ys)
  have mono: "b \<le> fold max ys b" for b :: nat
    by (induction ys arbitrary: b) (auto intro: order_trans [OF max.cobounded2])
  show ?case
  proof (cases "x = y")
    case True
    have "y \<le> max y a" by simp
    also have "\<dots> \<le> fold max ys (max y a)" by (rule mono)
    finally show ?thesis using True by simp
  next
    case False
    with Cons have "x \<le> fold max ys (max y a)" by simp
    then show ?thesis by simp
  qed
qed

text \<open>When no task raises, the await ends when the last task has ended.\<close>

lemma gather_all_return:
  assumes "\<forall>mon\<in>set tasks. raised (check_once cl mon) = None"
  shows "gather cl tasks = (fold max (map (finished cl) tasks) 0, None)"
proof -
  from assms have "failures cl tasks = []" by (simp add: failures_empty)
  then show ?thesis by (simp add: gather_def)
qed

text \<open>
  When a task raises, the await ends when the first raising task ends, and raises the
  exception of that task.
\<close>

lemma gather_some_raises:
  assumes "mon \<in> set tasks" and "raised (check_once cl mon) \<noteq> None"
  shows "\<exists>first\<in>set tasks. \<exists>e. raised (check_once cl first) = Some e
      \<and> gather cl tasks = (finished cl first, Some e)
      \<and> finished cl first \<le> finished cl mon"
proof -
  from assms obtain d where d: "raised (check_once cl mon) = Some d" by auto
  with assms(1) have m: "(finished cl mon, d) \<in> set (failures cl tasks)"
    by (auto simp: failures_member)
  then have "first_raised (failures cl tasks) \<noteq> None"
    by (auto simp: first_raised_None)
  then obtain t e where f: "first_raised (failures cl tasks) = Some (t, e)" by auto
  then have "(t, e) \<in> set (failures cl tasks)" by (rule first_raised_member)
  then obtain first where first: "first \<in> set tasks" "t = finished cl first"
      "raised (check_once cl first) = Some e"
    by (auto simp: failures_member)
  from f m have "t \<le> finished cl mon" by (rule first_raised_least)
  with f first show ?thesis by (auto simp: gather_def)
qed

lemma sleep_starts_launched:
  "m \<in> set (launched (cycle cl)) \<Longrightarrow> sleep_starts cl = fst (gather cl (launched (cycle cl)))"
  using launched_cases [of cl] by (auto simp: sleep_starts_def)

text \<open>
  Claim C9, amended. In every pass in which no launched probe raises, every launched
  probe has ended when the loop reaches its sleep. In a pass in which a launched probe
  raises, the loop reaches its sleep at the instant at which the first raising probe
  ends: no later than the end of any raising probe, and without waiting for the others.
\<close>

theorem barrier_unless_raised:
  "((\<forall>m\<in>set (launched (cycle cl)). raised (check_once cl m) = None) \<longrightarrow> barrier cl)
   \<and> (m \<in> set (launched (cycle cl)) \<and> raised (check_once cl m) \<noteq> None \<longrightarrow>
        sleep_starts cl \<le> finished cl m
        \<and> (\<exists>first\<in>set (launched (cycle cl)).
              raised (check_once cl first) \<noteq> None \<and> sleep_starts cl = finished cl first))"
proof (intro conjI impI)
  assume quiet: "\<forall>m\<in>set (launched (cycle cl)). raised (check_once cl m) = None"
  have "finished cl x \<le> sleep_starts cl" if x: "x \<in> set (launched (cycle cl))" for x
  proof -
    from quiet have "gather cl (launched (cycle cl))
        = (fold max (map (finished cl) (launched (cycle cl))) 0, None)"
      by (rule gather_all_return)
    with x have "sleep_starts cl = fold max (map (finished cl) (launched (cycle cl))) 0"
      by (simp add: sleep_starts_launched)
    moreover from x have "finished cl x \<in> set (map (finished cl) (launched (cycle cl)))"
      by simp
    ultimately show ?thesis by (simp add: fold_max_upper)
  qed
  then show "barrier cl" by (simp add: barrier_def list_all_iff)
next
  assume h: "m \<in> set (launched (cycle cl)) \<and> raised (check_once cl m) \<noteq> None"
  then have m: "m \<in> set (launched (cycle cl))" and r: "raised (check_once cl m) \<noteq> None"
    by simp_all
  from gather_some_raises [OF m r] obtain first e where
    f: "first \<in> set (launched (cycle cl))" "raised (check_once cl first) = Some e"
      "gather cl (launched (cycle cl)) = (finished cl first, Some e)"
      "finished cl first \<le> finished cl m"
    by blast
  from m f(3) have s: "sleep_starts cl = finished cl first"
    by (simp add: sleep_starts_launched)
  with f(4) show "sleep_starts cl \<le> finished cl m" by simp
  from f(1,2) s show "\<exists>first\<in>set (launched (cycle cl)).
      raised (check_once cl first) \<noteq> None \<and> sleep_starts cl = finished cl first"
    by auto
qed

theorem barrier_unless_raised_witness:
  "launched (cycle (staggered_client (\<lambda>c. None))) = [mon_bare, mon_on]
   \<and> barrier (staggered_client (\<lambda>c. None))
   \<and> sleep_starts (staggered_client store_refuses_first) \<le> 1"
proof -
  have l: "launched (cycle (staggered_client d)) = [mon_bare, mon_on]" for d
    by (simp add: loop_defs staggered_client_def example_defs dict_get_def)
  have q: "\<forall>m\<in>set (launched (cycle (staggered_client (\<lambda>c. None)))).
      raised (check_once (staggered_client (\<lambda>c. None)) m) = None"
    by (simp add: l) (simp add: probe_defs staggered_client_def example_defs string_defs)
  have r: "raised (check_once (staggered_client store_refuses_first) mon_bare) \<noteq> None"
    by (simp add: probe_defs staggered_client_def store_refuses_first_def example_defs
        string_defs)
  have t: "finished (staggered_client store_refuses_first) mon_bare = 1"
    by (simp add: staggered_client_def mon_bare_def)
  from barrier_unless_raised [of "staggered_client (\<lambda>c. None)"] q
  have "barrier (staggered_client (\<lambda>c. None))" by blast
  moreover from barrier_unless_raised [of "staggered_client store_refuses_first" mon_bare] l r t
  have "sleep_starts (staggered_client store_refuses_first) \<le> 1" by simp
  ultimately show ?thesis using l by simp
qed

text \<open>
  Claim C9 as stated fails: the store refuses the check of monitor 1, whose probe ends at
  instant 1; \<open>gather\<close> raises into the loop at once, and the loop reaches its sleep while
  the probe of monitor 2, which ends at instant 2 and delivers its check, still runs.
\<close>

theorem barrier_fails:
  "launched (cycle (staggered_client store_refuses_first)) = [mon_bare, mon_on]
   \<and> raised (check_once (staggered_client store_refuses_first) mon_bare)
       = Some (RequestError ''store down'')
   \<and> raised (check_once (staggered_client store_refuses_first) mon_on) = None
   \<and> sleep_starts (staggered_client store_refuses_first) = 1
   \<and> finished (staggered_client store_refuses_first) mon_on = 2
   \<and> \<not> barrier (staggered_client store_refuses_first)"
  by (simp add: loop_defs probe_defs staggered_client_def store_refuses_first_def
      example_defs string_defs)

end
